theory Spec2Isabelle
  imports Main "HOL-Library.Word"
begin

unbundle bit_operations_syntax

section \<open>The keyboard registry of the layout monitor (sklt.go)\<close>

text \<open>
  \<^verbatim>\<open>type kbdDev struct{ layout, prevDev, nextDev string }\<close>.
  Device identifiers double as list pointers; the empty string is the nil pointer.
\<close>

record kbdDev =
  layout :: string
  prevDev :: string
  nextDev :: string

text \<open>
  The fields of \<^verbatim>\<open>monitor\<close> that \<^verbatim>\<open>set\<close>, \<^verbatim>\<open>del\<close> and the notification test of
  \<^verbatim>\<open>watchLayouts\<close> touch. A Go map variable is either nil (\<open>None\<close>) or an allocated
  map (\<open>Some m\<close>); the socket and the channel are not part of the registry state.
\<close>

record monitor =
  kbds :: "(string \<rightharpoonup> kbdDev) option"
  lastKbd :: string
  prevLayout :: string

text \<open>The zero value of \<^verbatim>\<open>kbdDev\<close>, which Go returns when a key is missing.\<close>

definition zeroDev :: kbdDev where
  "zeroDev = \<lparr>layout = [], prevDev = [], nextDev = []\<rparr>"

text \<open>Go's map index expression \<^verbatim>\<open>m[k]\<close> on an allocated map.\<close>

definition index :: "(string \<rightharpoonup> kbdDev) \<Rightarrow> string \<Rightarrow> kbdDev" where
  "index m k = (case m k of None \<Rightarrow> zeroDev | Some d \<Rightarrow> d)"

text \<open>The same expression on a map variable that may be nil: reading a nil map yields zero values.\<close>

definition index_nil :: "(string \<rightharpoonup> kbdDev) option \<Rightarrow> string \<Rightarrow> kbdDev" where
  "index_nil mo k = (case mo of None \<Rightarrow> zeroDev | Some m \<Rightarrow> index m k)"

text \<open>
  The two relinking statements shared by \<^verbatim>\<open>del\<close> (lines 66-75) and \<^verbatim>\<open>set\<close> (lines 96-105):
  \<^verbatim>\<open>if len(l1.prevDev) > 0 { l2 := kbds[l1.prevDev]; l2.nextDev = l1.nextDev; kbds[l1.prevDev] = l2 }\<close>
  and the mirror image for \<^verbatim>\<open>l1.nextDev\<close>. The store \<^verbatim>\<open>kbds[k] = l2\<close> creates the key when
  it is missing.
\<close>

definition relink_prev :: "kbdDev \<Rightarrow> (string \<rightharpoonup> kbdDev) \<Rightarrow> (string \<rightharpoonup> kbdDev)" where
  "relink_prev l1 m =
     (if prevDev l1 \<noteq> [] then m(prevDev l1 \<mapsto> (index m (prevDev l1))\<lparr>nextDev := nextDev l1\<rparr>)
      else m)"

definition relink_next :: "kbdDev \<Rightarrow> (string \<rightharpoonup> kbdDev) \<Rightarrow> (string \<rightharpoonup> kbdDev)" where
  "relink_next l1 m =
     (if nextDev l1 \<noteq> [] then m(nextDev l1 \<mapsto> (index m (nextDev l1))\<lparr>prevDev := prevDev l1\<rparr>)
      else m)"

text \<open>\<^verbatim>\<open>func (self *monitor) del(id string)\<close>, lines 57-79.\<close>

definition monitor_del :: "monitor \<Rightarrow> string \<Rightarrow> monitor" where
  "monitor_del self ident =
     (if ident = [] then self
      else case kbds self of
        None \<Rightarrow> self
      | Some m \<Rightarrow>
          (let l1 = index m ident;
               m1 = m(ident := None);
               m2 = relink_prev l1 m1;
               m3 = relink_next l1 m2
           in self\<lparr>kbds := Some m3,
                   lastKbd := (if lastKbd self = ident then prevDev l1 else lastKbd self)\<rparr>))"

text \<open>\<^verbatim>\<open>func (self *monitor) set(id, l string)\<close>, lines 82-111.\<close>

definition monitor_set :: "monitor \<Rightarrow> string \<Rightarrow> string \<Rightarrow> monitor" where
  "monitor_set self ident l =
     (if l = [] then monitor_del self ident
      else
        (let m = (case kbds self of None \<Rightarrow> Map.empty | Some m0 \<Rightarrow> m0);
             l1 = index m ident
         in if layout l1 = l then self\<lparr>kbds := Some m\<rparr>
            else
              (let l1a = l1\<lparr>layout := l\<rparr>
               in if lastKbd self \<noteq> ident then
                    (let m1 = relink_prev l1a m;
                         m2 = relink_next l1a m1;
                         l1b = l1a\<lparr>prevDev := lastKbd self, nextDev := []\<rparr>
                     in self\<lparr>kbds := Some (m2(ident \<mapsto> l1b)), lastKbd := ident\<rparr>)
                  else self\<lparr>kbds := Some (m(ident \<mapsto> l1a))\<rparr>)))"

text \<open>
  The registry operations as data, so that sequences of calls can be quantified over:
  \<^verbatim>\<open>processMsg\<close> calls \<^verbatim>\<open>set\<close> for every listed or changed device and \<^verbatim>\<open>del\<close> for a
  removed one.
\<close>

datatype op = Set string string | Delete string

fun apply_op :: "monitor \<Rightarrow> op \<Rightarrow> monitor" where
  "apply_op self (Set ident l) = monitor_set self ident l"
| "apply_op self (Delete ident) = monitor_del self ident"

definition run_ops :: "monitor \<Rightarrow> op list \<Rightarrow> monitor" where
  "run_ops self ops = foldl apply_op self ops"

text \<open>The zero \<^verbatim>\<open>monitor\<close> that \<^verbatim>\<open>main\<close> creates: nil map, empty strings.\<close>

definition monitor0 :: monitor where
  "monitor0 = \<lparr>kbds = None, lastKbd = [], prevLayout = []\<rparr>"

text \<open>\<^verbatim>\<open>nl := self.kbds[self.lastKbd].layout\<close>, line 167.\<close>

definition currentLayout :: "monitor \<Rightarrow> string" where
  "currentLayout self = layout (index_nil (kbds self) (lastKbd self))"

text \<open>
  The tail of one \<^verbatim>\<open>watchLayouts\<close> iteration, lines 167-172: the new state and the string
  sent on the channel, if any.
\<close>

definition notify :: "monitor \<Rightarrow> monitor \<times> string option" where
  "notify self =
     (let nl = currentLayout self
      in if prevLayout self = nl then (self, None)
         else (self\<lparr>prevLayout := nl\<rparr>, Some nl))"

text \<open>The records present in the registry map, and the property that no forward link is set.\<close>

definition present :: "monitor \<Rightarrow> string \<Rightarrow> kbdDev option" where
  "present self k = (case kbds self of None \<Rightarrow> None | Some m \<Rightarrow> m k)"

definition no_next :: "monitor \<Rightarrow> bool" where
  "no_next self = (\<forall>k d. present self k = Some d \<longrightarrow> nextDev d = [])"

text \<open>One \<^verbatim>\<open>watchLayouts\<close> iteration whose message makes \<^verbatim>\<open>processMsg\<close> perform the calls \<open>ops\<close>.\<close>

definition watch_step :: "monitor \<Rightarrow> op list \<Rightarrow> monitor \<times> string option" where
  "watch_step self ops = notify (run_ops self ops)"

subsection \<open>The registry as the specification words it\<close>

text \<open>
  A second model, written from the specification (section 4.3) and not from the code, to
  compare the code with: the known devices with their layouts in recency order, the most
  recently changed one last. \<open>spec_set\<close> with a new or changed non-empty layout moves the
  device to the tail, \<open>spec_delete\<close> excises it, \<open>spec_currentLayout\<close> is the layout at the
  tail or empty.
\<close>

type_synonym spec_registry = "(string \<times> string) list"

definition spec_delete :: "spec_registry \<Rightarrow> string \<Rightarrow> spec_registry" where
  "spec_delete reg ident = filter (\<lambda>e. fst e \<noteq> ident) reg"

definition spec_set :: "spec_registry \<Rightarrow> string \<Rightarrow> string \<Rightarrow> spec_registry" where
  "spec_set reg ident l =
     (if l = [] then spec_delete reg ident
      else if map_of reg ident = Some l then reg
      else spec_delete reg ident @ [(ident, l)])"

definition spec_currentLayout :: "spec_registry \<Rightarrow> string" where
  "spec_currentLayout reg = (if reg = [] then [] else snd (last reg))"

fun spec_apply :: "spec_registry \<Rightarrow> op \<Rightarrow> spec_registry" where
  "spec_apply reg (Set ident l) = spec_set reg ident l"
| "spec_apply reg (Delete ident) = spec_delete reg ident"

definition spec_run :: "op list \<Rightarrow> spec_registry" where
  "spec_run ops = foldl spec_apply [] ops"

text \<open>Three keyboards are reported, then the second and the third are unplugged.\<close>

definition unplug_two :: "op list" where
  "unplug_two =
     [Set ''A'' ''us'', Set ''B'' ''de'', Set ''C'' ''fr'', Delete ''B'', Delete ''C'']"

text \<open>
  Scenario 1 of the specification: kbd0 and kbd1 are reported in one message and the
  notification is sent.
\<close>

definition scenario1 :: monitor where
  "scenario1 = fst (watch_step monitor0 [Set ''kbd0'' ''us'', Set ''kbd1'' ''de''])"

section \<open>The Sway IPC codec (second half of sklt.go)\<close>

type_synonym byte = "8 word"

text \<open>\<^verbatim>\<open>type MessageType uint32\<close> and the three codes the program needs.\<close>

type_synonym MessageType = "32 word"

definition SUBSCRIBE :: MessageType where
  "SUBSCRIBE = 2"

definition GET_INPUTS :: MessageType where
  "GET_INPUTS = 100"

definition InputEvent :: MessageType where
  "InputEvent = 0x80000015"

text \<open>
  The error values that can come out of the modelled code: \<^verbatim>\<open>io.EOF\<close>,
  \<^verbatim>\<open>io.ErrUnexpectedEOF\<close>, \<^verbatim>\<open>io.ErrShortWrite\<close>, the
  \<^verbatim>\<open>errors.New("invalid magic string")\<close> of \<^verbatim>\<open>ReadMessage\<close>, the package variable
  \<^verbatim>\<open>ErrNoIPC\<close>, an error of \<^verbatim>\<open>net.Dial\<close> with its text, and any other error (of
  \<^verbatim>\<open>json.Marshal\<close>, of a handler, of the operating system) with its text. Go compares
  \<^verbatim>\<open>err != ErrNoIPC\<close> by identity, so \<^verbatim>\<open>ErrNoIPC\<close> is a constructor of its own.
\<close>

datatype error =
    EOF
  | ErrUnexpectedEOF
  | ErrShortWrite
  | ErrInvalidMagic
  | ErrNoIPC
  | OpError string
  | OtherError string

text \<open>The method \<^verbatim>\<open>Error()\<close>: the message of each error.\<close>

fun Error :: "error \<Rightarrow> string" where
  "Error EOF = ''EOF''"
| "Error ErrUnexpectedEOF = ''unexpected EOF''"
| "Error ErrShortWrite = ''short write''"
| "Error ErrInvalidMagic = ''invalid magic string''"
| "Error ErrNoIPC = ''Sway IPC socket path is unknown''"
| "Error (OpError msg) = msg"
| "Error (OtherError msg) = msg"

text \<open>\<^verbatim>\<open>var Magic = [6]byte{'i', '3', '-', 'i', 'p', 'c'}\<close>.\<close>

definition Magic :: "byte list" where
  "Magic = [0x69, 0x33, 0x2D, 0x69, 0x70, 0x63]"

text \<open>
  \<^verbatim>\<open>type MessageHeader struct { Magic [6]byte; Length uint32; Type MessageType }\<close>.
  The field names carry an \<open>h\<close> because \<open>Magic\<close> is also the package variable.
\<close>

record MessageHeader =
  hMagic :: "byte list"
  hLength :: "32 word"
  hType :: MessageType

text \<open>
  \<^verbatim>\<open>ByteOrder = binary.LittleEndian\<close> in both build variants. \<open>PutUint32\<close> and
  \<open>Uint32\<close> are the methods of that byte order in \<^verbatim>\<open>encoding/binary\<close>:
  \<^verbatim>\<open>b[0] = byte(v); b[1] = byte(v >> 8); b[2] = byte(v >> 16); b[3] = byte(v >> 24)\<close> and
  \<^verbatim>\<open>uint32(b[0]) | uint32(b[1])<<8 | uint32(b[2])<<16 | uint32(b[3])<<24\<close>.
  \<open>Uint32\<close> is only applied to slices of four bytes.
\<close>

definition PutUint32 :: "32 word \<Rightarrow> byte list" where
  "PutUint32 v = [ucast v, ucast (drop_bit 8 v), ucast (drop_bit 16 v), ucast (drop_bit 24 v)]"

definition Uint32 :: "byte list \<Rightarrow> 32 word" where
  "Uint32 b = ucast (b ! 0) OR push_bit 8 (ucast (b ! 1)) OR push_bit 16 (ucast (b ! 2))
                OR push_bit 24 (ucast (b ! 3))"

text \<open>
  How \<^verbatim>\<open>binary.Write\<close> and \<^verbatim>\<open>binary.Read\<close> lay out a \<^verbatim>\<open>MessageHeader\<close>: the fields
  in order without padding, 6 + 4 + 4 = 14 bytes.
\<close>

definition encode_header :: "MessageHeader \<Rightarrow> byte list" where
  "encode_header h = hMagic h @ PutUint32 (hLength h) @ PutUint32 (hType h)"

definition decode_header :: "byte list \<Rightarrow> MessageHeader" where
  "decode_header bs =
     \<lparr>hMagic = take 6 bs,
      hLength = Uint32 (take 4 (drop 6 bs)),
      hType = Uint32 (take 4 (drop 10 bs))\<rparr>"

subsection \<open>The reading side\<close>

text \<open>
  The connection as a reader: the bytes that arrive before the peer closes. \<open>conn_Read r k\<close>
  is \<^verbatim>\<open>Read(p)\<close> with \<^verbatim>\<open>len(p) = k\<close>: the bytes read, the error and the rest of the
  stream. A read of no bytes returns at once; at the end of the stream the error is
  \<^verbatim>\<open>io.EOF\<close>; otherwise the read delivers as many of the \<open>k\<close> bytes as there are.
\<close>

type_synonym conn = "byte list"

definition conn_Read :: "conn \<Rightarrow> nat \<Rightarrow> byte list \<times> error option \<times> conn" where
  "conn_Read r k =
     (if k = 0 then ([], None, r)
      else if r = [] then ([], Some EOF, r)
      else (take k r, None, drop k r))"

text \<open>
  \<^verbatim>\<open>io.ReadFull\<close> on such a stream: \<open>n\<close> bytes, or \<^verbatim>\<open>io.EOF\<close> when nothing could be
  read, or \<^verbatim>\<open>io.ErrUnexpectedEOF\<close> when the stream ended after fewer than \<open>n\<close> bytes.
\<close>

definition ReadFull :: "conn \<Rightarrow> nat \<Rightarrow> byte list \<times> error option \<times> conn" where
  "ReadFull r n =
     (if n \<le> length r then (take n r, None, drop n r)
      else if r = [] then ([], Some EOF, [])
      else (r, Some ErrUnexpectedEOF, []))"

text \<open>\<^verbatim>\<open>binary.Read(r, ByteOrder, &h)\<close>: fill a buffer of 14 bytes with \<^verbatim>\<open>io.ReadFull\<close>, then decode.\<close>

definition binary_Read :: "conn \<Rightarrow> (error + MessageHeader) \<times> conn" where
  "binary_Read r =
     (case ReadFull r 14 of
        (bs, Some err, r') \<Rightarrow> (Inl err, r')
      | (bs, None, r') \<Rightarrow> (Inr (decode_header bs), r'))"

text \<open>
  \<^verbatim>\<open>io.LimitedReader{R: r, N: n}\<close> and its \<^verbatim>\<open>Read\<close>:
  \<^verbatim>\<open>if l.N <= 0 { return 0, EOF }; if int64(len(p)) > l.N { p = p[0:l.N] };
  n, err = l.R.Read(p); l.N -= int64(n)\<close>.
\<close>

record LimitedReader =
  lrR :: conn
  lrN :: int

definition LimitedReader_Read ::
  "LimitedReader \<Rightarrow> nat \<Rightarrow> byte list \<times> error option \<times> LimitedReader" where
  "LimitedReader_Read l k =
     (if lrN l \<le> 0 then ([], Some EOF, l)
      else
        (let k' = (if int k > lrN l then nat (lrN l) else k)
         in case conn_Read (lrR l) k' of
              (bs, err, r') \<Rightarrow> (bs, err, \<lparr>lrR = r', lrN = lrN l - int (length bs)\<rparr>)))"

text \<open>
  \<^verbatim>\<open>type MessageHandler func(t MessageType, payload io.Reader) error\<close>. All a handler can
  do with its payload is call \<^verbatim>\<open>Read\<close>, so a handler is a tree of reads: it either
  returns (with its effect on the variables it has captured, of type \<open>'a\<close>, and its
  error), or asks for up to \<open>k\<close> bytes and goes on according to what it got. The
  handler reaches the incoming stream through this reader only, as \<^verbatim>\<open>processMsg\<close> does,
  which decodes from \<^verbatim>\<open>payload\<close> and uses the socket for writing alone.
\<close>

datatype 'a handler =
    Return 'a "error option"
  | ReadN nat "byte list \<Rightarrow> error option \<Rightarrow> 'a handler"

primrec run_handler ::
  "'a handler \<Rightarrow> LimitedReader \<Rightarrow> LimitedReader \<times> 'a \<times> error option" where
  "run_handler (Return a err) p = (p, a, err)"
| "run_handler (ReadN k cont) p =
     (case LimitedReader_Read p k of (bs, err, p') \<Rightarrow> run_handler (cont bs err) p')"

text \<open>
  \<^verbatim>\<open>io.Copy(ioutil.Discard, p)\<close> runs the \<^verbatim>\<open>ReadFrom\<close> of the discarding writer: read
  into a buffer of 8192 bytes until an error comes back, and report that error unless
  it is \<^verbatim>\<open>io.EOF\<close>.
\<close>

function Discard_ReadFrom :: "LimitedReader \<Rightarrow> LimitedReader \<times> error option" where
  "Discard_ReadFrom p =
     (case LimitedReader_Read p 8192 of
        (bs, Some err, p') \<Rightarrow> (p', if err = EOF then None else Some err)
      | (bs, None, p') \<Rightarrow> Discard_ReadFrom p')"
  by pat_completeness auto
termination
  apply (relation "measure (\<lambda>p. length (lrR p))")
   apply simp
  apply (auto simp: LimitedReader_Read_def conn_Read_def Let_def split: if_splits)
  done

declare Discard_ReadFrom.simps [simp del]

text \<open>
  \<^verbatim>\<open>func ReadMessage(r io.Reader, f MessageHandler) error\<close>, lines 322-338. The result is
  the stream after the call, the handler's effect when the handler was called, and the
  returned error.
\<close>

definition ReadMessage ::
  "conn \<Rightarrow> (MessageType \<Rightarrow> 'a handler) \<Rightarrow> conn \<times> 'a option \<times> error option" where
  "ReadMessage r f =
     (case binary_Read r of
        (Inl err, r') \<Rightarrow> (r', None, Some err)
      | (Inr h, r') \<Rightarrow>
          if hMagic h \<noteq> Magic then (r', None, Some ErrInvalidMagic)
          else
            (let p = \<lparr>lrR = r', lrN = int (unat (hLength h))\<rparr>
             in case run_handler (f (hType h)) p of
                  (p1, a, ferr) \<Rightarrow>
                    (case Discard_ReadFrom p1 of
                       (p2, err) \<Rightarrow> (lrR p2, Some a, if ferr \<noteq> None then ferr else err))))"

subsection \<open>The writing side\<close>

text \<open>
  A writer is a state \<open>'w\<close> with its \<^verbatim>\<open>Write\<close> method, which returns the new state, the
  number of bytes written and the error. \<^verbatim>\<open>binary.Write\<close> encodes the header and
  returns the error of one \<^verbatim>\<open>Write\<close> call.
\<close>

definition binary_Write ::
  "('w \<Rightarrow> byte list \<Rightarrow> 'w \<times> nat \<times> error option) \<Rightarrow> 'w \<Rightarrow> MessageHeader \<Rightarrow> 'w \<times> error option" where
  "binary_Write Write w h = (case Write w (encode_header h) of (w', n, err) \<Rightarrow> (w', err))"

text \<open>\<^verbatim>\<open>func WriteEmptyMessage(w io.Writer, t MessageType) error\<close>, lines 341-343.\<close>

definition WriteEmptyMessage ::
  "('w \<Rightarrow> byte list \<Rightarrow> 'w \<times> nat \<times> error option) \<Rightarrow> 'w \<Rightarrow> MessageType \<Rightarrow> 'w \<times> error option" where
  "WriteEmptyMessage Write w t =
     binary_Write Write w \<lparr>hMagic = Magic, hLength = 0, hType = t\<rparr>"

text \<open>
  \<^verbatim>\<open>func WriteJSONMessage(w io.Writer, t MessageType, p interface{}) error\<close>, lines
  346-363, with \<^verbatim>\<open>json.Marshal\<close> as the parameter \<open>Marshal\<close>. The conversion
  \<^verbatim>\<open>uint32(len(b))\<close> keeps the low 32 bits of the length.
\<close>

definition WriteJSONMessage ::
  "('w \<Rightarrow> byte list \<Rightarrow> 'w \<times> nat \<times> error option) \<Rightarrow> ('v \<Rightarrow> error + byte list) \<Rightarrow>
     'w \<Rightarrow> MessageType \<Rightarrow> 'v \<Rightarrow> 'w \<times> error option" where
  "WriteJSONMessage Write Marshal w t p =
     (case Marshal p of
        Inl err \<Rightarrow> (w, Some err)
      | Inr b \<Rightarrow>
          (case binary_Write Write w
                  \<lparr>hMagic = Magic, hLength = of_nat (length b), hType = t\<rparr> of
             (w1, Some err) \<Rightarrow> (w1, Some err)
           | (w1, None) \<Rightarrow>
               (case Write w1 b of
                  (w2, n, Some err) \<Rightarrow> (w2, Some err)
                | (w2, n, None) \<Rightarrow>
                    if n < length b then (w2, Some ErrShortWrite) else (w2, None))))"

text \<open>The \<^verbatim>\<open>Write\<close> of a \<^verbatim>\<open>bytes.Buffer\<close>: append everything, never fail.\<close>

definition Buffer_Write :: "byte list \<Rightarrow> byte list \<Rightarrow> byte list \<times> nat \<times> error option" where
  "Buffer_Write buf p = (buf @ p, length p, None)"

subsection \<open>Concrete handlers and payloads\<close>

text \<open>A handler that asks once for \<open>n\<close> bytes and returns them with the type code.\<close>

definition echo :: "nat \<Rightarrow> MessageType \<Rightarrow> (MessageType \<times> byte list) handler" where
  "echo n t = ReadN n (\<lambda>bs err. Return (t, bs) err)"

text \<open>
  \<^verbatim>\<open>json.Marshal\<close> on a \<^verbatim>\<open>json.RawMessage\<close> that holds a valid, compact document returns
  the bytes of that document; \<open>Marshal_RawMessage\<close> is only applied to such documents.
\<close>

definition Marshal_RawMessage :: "byte list \<Rightarrow> error + byte list" where
  "Marshal_RawMessage doc = Inr doc"

text \<open>The document \<^verbatim>\<open>["input"]\<close> that \<^verbatim>\<open>watchLayouts\<close> sends with \<^verbatim>\<open>SUBSCRIBE\<close>.\<close>

definition input_doc :: "byte list" where
  "input_doc = [0x5B, 0x22, 0x69, 0x6E, 0x70, 0x75, 0x74, 0x22, 0x5D]"

text \<open>A JSON string of \<open>2 ^ 32\<close> bytes: a quote, letters \<^verbatim>\<open>a\<close>, a quote.\<close>

definition huge_doc :: "byte list" where
  "huge_doc = 0x22 # replicate (2 ^ 32 - 2) 0x61 @ [0x22]"

section \<open>Connecting and the status loop (\<^verbatim>\<open>Connect\<close>, \<^verbatim>\<open>main\<close>)\<close>

text \<open>
  \<^verbatim>\<open>func Connect(path string) (net.Conn, error)\<close>, lines 369-377. \<open>SWAYSOCK\<close> is the value
  of the environment variable (empty when unset) and \<open>Dial\<close> is \<^verbatim>\<open>net.Dial("unix", _)\<close>,
  which yields a connection or an error of the \<^verbatim>\<open>net\<close> package with its text.
\<close>

definition Connect :: "string \<Rightarrow> (string \<Rightarrow> string + 'c) \<Rightarrow> string \<Rightarrow> 'c option \<times> error option" where
  "Connect SWAYSOCK Dial path =
     (let path1 = (if path = [] then SWAYSOCK else path)
      in if path1 = [] then (None, Some ErrNoIPC)
         else (case Dial path1 of
                 Inl msg \<Rightarrow> (None, Some (OpError msg))
               | Inr c \<Rightarrow> (Some c, None)))"

text \<open>
  Lines 247-258 of \<^verbatim>\<open>main\<close>: the process either exits with a status, or goes on with the
  connection (\<^verbatim>\<open>watchLayouts\<close> is started exactly when there is one) and the final
  format string.
\<close>

datatype 'c startup = Exit nat | Started "'c option" string

definition main_connect :: "string \<Rightarrow> (string \<Rightarrow> string + 'c) \<Rightarrow> string \<Rightarrow> 'c startup" where
  "main_connect SWAYSOCK Dial format =
     (case Connect SWAYSOCK Dial [] of
        (s, err) \<Rightarrow>
          if err \<noteq> None \<and> err \<noteq> Some ErrNoIPC then Exit 1
          else Started s ((if s \<noteq> None then '' '' @ format else format) @ [CHR 0x0A]))"

text \<open>
  The loop of \<^verbatim>\<open>main\<close>, lines 261-281. An event is what the \<^verbatim>\<open>select\<close> receives: a
  layout from the monitor's channel together with the \<^verbatim>\<open>time.Now()\<close> taken at receipt, or
  a time from the ticker. The state is the variables \<^verbatim>\<open>layout\<close> and \<^verbatim>\<open>prevStatus\<close> and
  the log of the strings passed to \<^verbatim>\<open>io.WriteString(os.Stdout, _)\<close>, one entry per call.
  \<open>Format\<close> is \<^verbatim>\<open>Time.Format\<close>; \<open>WriteString\<close> gives the count and error the call returns.
\<close>

datatype 'time event = LayoutEvent string 'time | TickEvent 'time

record loop_state =
  loop_layout :: string
  loop_prevStatus :: string
  loop_stdout :: "string list"

definition loop0 :: loop_state where
  "loop0 = \<lparr>loop_layout = [], loop_prevStatus = [], loop_stdout = []\<rparr>"

fun received :: "loop_state \<Rightarrow> 'time event \<Rightarrow> string \<times> 'time" where
  "received st (LayoutEvent l now) = (l, now)"
| "received st (TickEvent t) = (loop_layout st, t)"

text \<open>\<^verbatim>\<open>status := layout + t.Format(format)\<close>, the candidate of one iteration.\<close>

definition candidate ::
  "('time \<Rightarrow> string \<Rightarrow> string) \<Rightarrow> string \<Rightarrow> loop_state \<Rightarrow> 'time event \<Rightarrow> string" where
  "candidate Format format st ev =
     (case received st ev of (l, t) \<Rightarrow> l @ Format t format)"

text \<open>One iteration: \<open>Inl c\<close> is \<^verbatim>\<open>os.Exit(c)\<close>.\<close>

definition loop_step ::
  "('time \<Rightarrow> string \<Rightarrow> string) \<Rightarrow> (string \<Rightarrow> nat \<times> error option) \<Rightarrow> string \<Rightarrow>
     loop_state \<Rightarrow> 'time event \<Rightarrow> nat + loop_state" where
  "loop_step Format WriteString format st ev =
     (let l = fst (received st ev);
          status = candidate Format format st ev
      in if status \<noteq> loop_prevStatus st then
           (case WriteString status of
              (n, err) \<Rightarrow>
                (let err1 = (if err = None \<and> n < length status then Some ErrShortWrite else err)
                 in if err1 \<noteq> None then Inl 1
                    else Inr \<lparr>loop_layout = l, loop_prevStatus = status,
                              loop_stdout = loop_stdout st @ [status]\<rparr>))
         else Inr (st\<lparr>loop_layout := l\<rparr>))"

fun run_loop ::
  "('time \<Rightarrow> string \<Rightarrow> string) \<Rightarrow> (string \<Rightarrow> nat \<times> error option) \<Rightarrow> string \<Rightarrow>
     loop_state \<Rightarrow> 'time event list \<Rightarrow> nat + loop_state" where
  "run_loop Format WriteString format st [] = Inr st"
| "run_loop Format WriteString format st (ev # evs) =
     (case loop_step Format WriteString format st ev of
        Inl c \<Rightarrow> Inl c
      | Inr st' \<Rightarrow> run_loop Format WriteString format st' evs)"

text \<open>
  The events the loop can receive: without a connection \<^verbatim>\<open>watchLayouts\<close> is not started,
  nothing ever sends on the layout channel, and only the ticker's events arrive.
\<close>

fun is_tick :: "'time event \<Rightarrow> bool" where
  "is_tick (TickEvent t) = True"
| "is_tick (LayoutEvent l now) = False"

text \<open>The times of the ticker's events in a list of events, in order.\<close>

fun ticks :: "'time event list \<Rightarrow> 'time list" where
  "ticks [] = []"
| "ticks (TickEvent t # evs) = t # ticks evs"
| "ticks (LayoutEvent l now # evs) = ticks evs"

definition main_run ::
  "string \<Rightarrow> (string \<Rightarrow> string + 'c) \<Rightarrow> ('time \<Rightarrow> string \<Rightarrow> string) \<Rightarrow>
     (string \<Rightarrow> nat \<times> error option) \<Rightarrow> string \<Rightarrow> 'time event list \<Rightarrow> nat + loop_state" where
  "main_run SWAYSOCK Dial Format WriteString format evs =
     (case main_connect SWAYSOCK Dial format of
        Exit c \<Rightarrow> Inl c
      | Started s format1 \<Rightarrow>
          run_loop Format WriteString format1 loop0
            (if s = None then filter is_tick evs else evs))"

text \<open>
  Concrete parameters: \<^verbatim>\<open>Time.Format\<close> on a layout without any element of the reference
  time (such as \<^verbatim>\<open>-f now\<close>) returns the layout for every time; a standard output that
  accepts every write; a dialler that finds no socket.
\<close>

definition Format_literal :: "nat \<Rightarrow> string \<Rightarrow> string" where
  "Format_literal t format = format"

definition WriteString_ok :: "string \<Rightarrow> nat \<times> error option" where
  "WriteString_ok s = (length s, None)"

definition Dial_refused :: "string \<Rightarrow> string + unit" where
  "Dial_refused path = Inl ''connection refused''"

definition now_line :: string where
  "now_line = ''now'' @ [CHR 0x0A]"

definition after_first_tick :: loop_state where
  "after_first_tick = \<lparr>loop_layout = [], loop_prevStatus = now_line, loop_stdout = [now_line]\<rparr>"

section \<open>Registry: evaluation and invariants\<close>

lemmas registry_defs =
  run_ops_def monitor0_def monitor_set_def monitor_del_def relink_prev_def relink_next_def
  index_def index_nil_def zeroDev_def currentLayout_def present_def Let_def

lemmas spec_defs =
  spec_run_def spec_set_def spec_delete_def spec_currentLayout_def

text \<open>
  Claim C1. The layout reported after a sequence of registry operations should be that of
  the still-present device whose layout changed last. After \<open>unplug_two\<close> keyboard A is
  still present with layout us, and the specification's registry reports us, but the code
  reports the empty layout: the tail pointer has moved to the unplugged B.
\<close>

theorem currentLayout_after_unplug_two:
  "currentLayout (run_ops monitor0 unplug_two) = [] \<and>
   present (run_ops monitor0 unplug_two) ''A''
     = Some \<lparr>layout = ''us'', prevDev = [], nextDev = []\<rparr> \<and>
   spec_run unplug_two = [(''A'', ''us'')] \<and>
   spec_currentLayout (spec_run unplug_two) = ''us''"
  by (simp add: unplug_two_def registry_defs spec_defs)

text \<open>
  Claim C2. The links should be symmetric and free of short cycles. After two keyboards
  are reported, kbd1 names kbd0 as its predecessor while kbd0 names no successor; and
  after A, B, A again (changed) and C, the predecessor links of A and B point at each
  other, a cycle of length two among three devices.
\<close>

theorem links_after_two_sets:
  "present (run_ops monitor0 [Set ''kbd0'' ''us'', Set ''kbd1'' ''de'']) ''kbd1''
     = Some \<lparr>layout = ''de'', prevDev = ''kbd0'', nextDev = []\<rparr> \<and>
   present (run_ops monitor0 [Set ''kbd0'' ''us'', Set ''kbd1'' ''de'']) ''kbd0''
     = Some \<lparr>layout = ''us'', prevDev = [], nextDev = []\<rparr> \<and>
   present (run_ops monitor0
       [Set ''A'' ''us'', Set ''B'' ''de'', Set ''A'' ''fr'', Set ''C'' ''es'']) ''A''
     = Some \<lparr>layout = ''fr'', prevDev = ''B'', nextDev = []\<rparr> \<and>
   present (run_ops monitor0
       [Set ''A'' ''us'', Set ''B'' ''de'', Set ''A'' ''fr'', Set ''C'' ''es'']) ''B''
     = Some \<lparr>layout = ''de'', prevDev = ''A'', nextDev = []\<rparr> \<and>
   present (run_ops monitor0
       [Set ''A'' ''us'', Set ''B'' ''de'', Set ''A'' ''fr'', Set ''C'' ''es'']) ''C''
     = Some \<lparr>layout = ''es'', prevDev = ''A'', nextDev = []\<rparr>"
  by (simp add: registry_defs)

text \<open>
  Claim C3. The tail pointer should be empty exactly when no device is left and should
  never name a deleted device, and deleting should never insert a key. After
  \<open>unplug_two\<close> the tail pointer names B, which was deleted by the fourth operation (it
  is absent after it), and the fifth operation, the deletion of C, has put B back into
  the map as a zero record, while A is the only device left.
\<close>

theorem lastKbd_after_unplug_two:
  "present (run_ops monitor0 (take 4 unplug_two)) ''B'' = None \<and>
   lastKbd (run_ops monitor0 (take 4 unplug_two)) = ''C'' \<and>
   run_ops monitor0 unplug_two
     = monitor_del (run_ops monitor0 (take 4 unplug_two)) ''C'' \<and>
   lastKbd (run_ops monitor0 unplug_two) = ''B'' \<and>
   present (run_ops monitor0 unplug_two) ''B'' = Some zeroDev \<and>
   present (run_ops monitor0 unplug_two) ''C'' = None"
  by (simp add: unplug_two_def registry_defs)

subsection \<open>Forward links are never written\<close>

lemma index_no_next:
  "\<forall>k d. m k = Some d \<longrightarrow> nextDev d = [] \<Longrightarrow> nextDev (index m k) = []"
  by (auto simp: index_def zeroDev_def split: option.splits)

lemma relink_next_skip: "nextDev l1 = [] \<Longrightarrow> relink_next l1 m = m"
  by (simp add: relink_next_def)

lemma monitor_del_no_next: "no_next s \<Longrightarrow> no_next (monitor_del s i)"
  unfolding no_next_def present_def monitor_del_def
  by (auto simp: Let_def relink_next_skip index_no_next relink_prev_def
      split: option.splits if_splits)

lemma monitor_set_no_next: "no_next s \<Longrightarrow> no_next (monitor_set s i l)"
  using monitor_del_no_next [of s i]
  unfolding no_next_def present_def monitor_set_def
  by (auto simp: Let_def relink_next_skip index_no_next relink_prev_def
      split: option.splits if_splits)

lemma apply_op_no_next: "no_next s \<Longrightarrow> no_next (apply_op s x)"
  by (cases x) (simp_all add: monitor_set_no_next monitor_del_no_next)

lemma run_ops_no_next: "no_next s \<Longrightarrow> no_next (run_ops s ops)"
  unfolding run_ops_def
  by (induction ops arbitrary: s) (simp_all add: apply_op_no_next)

lemma monitor0_no_next: "no_next monitor0"
  by (simp add: no_next_def present_def monitor0_def)

text \<open>
  Claim C10. After every sequence of set and delete operations on the initially empty
  registry, every record present in the map has an empty \<open>nextDev\<close>: the forward links
  are never populated.
\<close>

theorem nextDev_always_empty:
  "present (run_ops monitor0 ops) k = Some d \<Longrightarrow> nextDev d = []"
  using run_ops_no_next [OF monitor0_no_next, of ops]
  by (simp add: no_next_def)

theorem nextDev_always_empty_witness:
  "present (run_ops monitor0 [Set ''kbd0'' ''us'', Set ''kbd1'' ''de'']) ''kbd0''
     = Some \<lparr>layout = ''us'', prevDev = [], nextDev = []\<rparr> \<and>
   nextDev \<lparr>layout = ''us'', prevDev = [], nextDev = []\<rparr> = []"
proof -
  have p: "present (run_ops monitor0 [Set ''kbd0'' ''us'', Set ''kbd1'' ''de'']) ''kbd0''
     = Some \<lparr>layout = ''us'', prevDev = [], nextDev = []\<rparr>"
    by (simp add: registry_defs)
  from nextDev_always_empty [OF p] p show ?thesis by simp
qed

subsection \<open>Setting an unchanged layout\<close>

lemma monitor_set_unchanged:
  "present self ident = Some d \<Longrightarrow> layout d = l \<Longrightarrow> l \<noteq> [] \<Longrightarrow> monitor_set self ident l = self"
  by (auto simp: monitor_set_def present_def index_def Let_def split: option.splits)

lemma monitor_set_present:
  "l \<noteq> [] \<Longrightarrow> \<exists>d. present (monitor_set self ident l) ident = Some d \<and> layout d = l"
  by (auto simp: monitor_set_def present_def index_def Let_def zeroDev_def
      split: option.splits)

lemma monitor_set_twice:
  "l \<noteq> [] \<Longrightarrow> monitor_set (monitor_set self ident l) ident l = monitor_set self ident l"
  using monitor_set_present [of l self ident] monitor_set_unchanged by blast

text \<open>
  Claim C7. When the record of \<open>ident\<close> already has the non-empty layout \<open>l\<close>, the call
  \<open>set(ident, l)\<close> returns the registry state as it was, map, links, tail pointer and
  all; a message that consists of this call sends nothing on the channel when the last
  notified layout was up to date, and in any state decides as if the call had not been
  made. Calling \<open>set\<close> twice in a row with the same arguments gives the state of
  calling it once.
\<close>

theorem set_same_layout_noop:
  "l \<noteq> [] \<Longrightarrow>
     monitor_set (monitor_set self0 ident l) ident l = monitor_set self0 ident l \<and>
     (present self ident = Some d \<and> layout d = l \<longrightarrow>
        monitor_set self ident l = self \<and>
        watch_step self [Set ident l] = notify self \<and>
        (prevLayout self = currentLayout self \<longrightarrow>
           watch_step self [Set ident l] = (self, None)))"
proof (intro conjI impI)
  assume "l \<noteq> []"
  then show "monitor_set (monitor_set self0 ident l) ident l = monitor_set self0 ident l"
    by (rule monitor_set_twice)
next
  assume l: "l \<noteq> []" and d: "present self ident = Some d \<and> layout d = l"
  then show same: "monitor_set self ident l = self"
    by (simp add: monitor_set_unchanged)
  then show "watch_step self [Set ident l] = notify self"
    by (simp add: watch_step_def run_ops_def)
  assume "prevLayout self = currentLayout self"
  with same show "watch_step self [Set ident l] = (self, None)"
    by (simp add: watch_step_def run_ops_def notify_def)
qed

theorem set_same_layout_noop_witness:
  "''us'' \<noteq> [] \<and>
   present scenario1 ''kbd0'' = Some \<lparr>layout = ''us'', prevDev = [], nextDev = []\<rparr> \<and>
   prevLayout scenario1 = currentLayout scenario1 \<and>
   monitor_set scenario1 ''kbd0'' ''us'' = scenario1 \<and>
   watch_step scenario1 [Set ''kbd0'' ''us''] = (scenario1, None) \<and>
   currentLayout (monitor_set scenario1 ''kbd0'' ''us'') = ''de'' \<and>
   monitor_set (monitor_set monitor0 ''kbd0'' ''us'') ''kbd0'' ''us''
     = monitor_set monitor0 ''kbd0'' ''us''"
proof -
  have p: "present scenario1 ''kbd0'' = Some \<lparr>layout = ''us'', prevDev = [], nextDev = []\<rparr>"
    by (simp add: scenario1_def watch_step_def notify_def registry_defs)
  have q: "prevLayout scenario1 = currentLayout scenario1"
    by (simp add: scenario1_def watch_step_def notify_def registry_defs)
  have r: "currentLayout scenario1 = ''de''"
    by (simp add: scenario1_def watch_step_def notify_def registry_defs)
  have n: "''us'' \<noteq> []"
    by simp
  from set_same_layout_noop
    [OF n, of monitor0 "''kbd0''" scenario1 "\<lparr>layout = ''us'', prevDev = [], nextDev = []\<rparr>"]
    p q r show ?thesis
    by (simp add: notify_def)
qed

section \<open>The codec: framing\<close>

lemma Uint32_PutUint32: "Uint32 (PutUint32 v) = v"
proof (rule bit_word_eqI)
  fix n :: nat
  assume "n < LENGTH(32)"
  then consider "n < 8" | "8 \<le> n \<and> n < 16" | "16 \<le> n \<and> n < 24" | "24 \<le> n \<and> n < 32"
    by fastforce
  then show "bit (Uint32 (PutUint32 v)) n = bit v n"
    by cases (auto simp: Uint32_def PutUint32_def bit_simps nth_Cons')
qed

lemma length_PutUint32: "length (PutUint32 v) = 4"
  by (simp add: PutUint32_def)

lemma length_Magic: "length Magic = 6"
  by (simp add: Magic_def)

lemma decode_encode_header: "length (hMagic h) = 6 \<Longrightarrow> decode_header (encode_header h) = h"
  by (simp add: decode_header_def encode_header_def length_PutUint32 Uint32_PutUint32)

lemma length_encode_header: "length (hMagic h) = 6 \<Longrightarrow> length (encode_header h) = 14"
  by (simp add: encode_header_def length_PutUint32)

lemma binary_Read_encoded:
  "length (hMagic h) = 6 \<Longrightarrow> binary_Read (encode_header h @ rest) = (Inr h, rest)"
  by (simp add: binary_Read_def ReadFull_def length_encode_header decode_encode_header)

text \<open>
  A limited reader is in bounds when its limit is not negative and the stream holds at
  least that many bytes. Every read on such a reader moves the stream and the limit on
  by the same number \<open>j\<close> of bytes, and \<open>j\<close> is at most the limit.
\<close>

lemma LimitedReader_Read_advances:
  assumes "0 \<le> lrN p" and "nat (lrN p) \<le> length (lrR p)"
    and "LimitedReader_Read p k = (bs, err, p')"
  shows "\<exists>j. int j \<le> lrN p \<and> p' = \<lparr>lrR = drop j (lrR p), lrN = lrN p - int j\<rparr>"
proof (cases "lrN p \<le> 0 \<or> k = 0 \<or> lrR p = []")
  case True
  with assms have "p' = p"
    by (auto simp: LimitedReader_Read_def conn_Read_def Let_def split: if_splits)
  with assms(1) have "int 0 \<le> lrN p \<and> p' = \<lparr>lrR = drop 0 (lrR p), lrN = lrN p - int 0\<rparr>"
    by simp
  then show ?thesis by (rule exI)
next
  case False
  define k' where "k' = (if int k > lrN p then nat (lrN p) else k)"
  from False assms have k': "int k' \<le> lrN p" "k' \<le> length (lrR p)"
    by (auto simp: k'_def)
  from False assms(3) have "p' = \<lparr>lrR = drop k' (lrR p), lrN = lrN p - int (length (take k' (lrR p)))\<rparr>"
    by (auto simp: LimitedReader_Read_def conn_Read_def Let_def k'_def split: if_splits)
  with k' have "int k' \<le> lrN p \<and> p' = \<lparr>lrR = drop k' (lrR p), lrN = lrN p - int k'\<rparr>"
    by (simp add: min_def)
  then show ?thesis by (rule exI)
qed

lemma run_handler_advances:
  assumes "0 \<le> lrN p" and "nat (lrN p) \<le> length (lrR p)"
    and "run_handler h p = (p', a, err)"
  shows "\<exists>j. int j \<le> lrN p \<and> p' = \<lparr>lrR = drop j (lrR p), lrN = lrN p - int j\<rparr>"
  using assms
proof (induction h arbitrary: p)
  case (Return x1 x2)
  then have "int 0 \<le> lrN p \<and> p' = \<lparr>lrR = drop 0 (lrR p), lrN = lrN p - int 0\<rparr>"
    by simp
  then show ?case by (rule exI)
next
  case (ReadN k cont)
  obtain bs e p1 where r: "LimitedReader_Read p k = (bs, e, p1)"
    by (cases "LimitedReader_Read p k") auto
  with ReadN.prems have run1: "run_handler (cont bs e) p1 = (p', a, err)"
    by simp
  from LimitedReader_Read_advances [OF ReadN.prems(1,2) r]
  obtain i where i: "int i \<le> lrN p" "p1 = \<lparr>lrR = drop i (lrR p), lrN = lrN p - int i\<rparr>"
    by blast
  with ReadN.prems(2) have b1: "0 \<le> lrN p1" "nat (lrN p1) \<le> length (lrR p1)"
    by auto
  from ReadN.IH [OF rangeI rangeI b1 run1]
  obtain j where j: "int j \<le> lrN p1" "p' = \<lparr>lrR = drop j (lrR p1), lrN = lrN p1 - int j\<rparr>"
    by blast
  with i have "int (i + j) \<le> lrN p \<and> p' = \<lparr>lrR = drop (i + j) (lrR p), lrN = lrN p - int (i + j)\<rparr>"
    by (simp add: add.commute)
  then show ?case by (rule exI)
qed

lemma Discard_ReadFrom_drains:
  assumes "0 \<le> lrN p" and "nat (lrN p) \<le> length (lrR p)"
    and "Discard_ReadFrom p = (p', err)"
  shows "lrR p' = drop (nat (lrN p)) (lrR p) \<and> err = None"
  using assms
proof (induction p rule: Discard_ReadFrom.induct)
  case (1 p)
  obtain bs e p1 where r: "LimitedReader_Read p 8192 = (bs, e, p1)"
    by (cases "LimitedReader_Read p 8192") auto
  from LimitedReader_Read_advances [OF "1.prems"(1,2) r]
  obtain i where i: "int i \<le> lrN p" "p1 = \<lparr>lrR = drop i (lrR p), lrN = lrN p - int i\<rparr>"
    by blast
  show ?case
  proof (cases e)
    case None
    with r "1.prems"(3) have d1: "Discard_ReadFrom p1 = (p', err)"
      by (simp add: Discard_ReadFrom.simps [of p])
    from i "1.prems"(2) have b1: "0 \<le> lrN p1" "nat (lrN p1) \<le> length (lrR p1)"
      by auto
    from r None have "(bs, e, p1) = LimitedReader_Read p 8192" "(e, p1) = (e, p1)" "e = None"
      by simp_all
    from "1.IH" [OF this b1 d1] i show ?thesis
      by (simp add: nat_diff_distrib add.commute)
  next
    case (Some x)
    with r "1.prems" show ?thesis
      by (auto simp: Discard_ReadFrom.simps [of p] LimitedReader_Read_def conn_Read_def
          Let_def split: if_splits)
  qed
qed

text \<open>
  After the handler has returned and the rest of the payload has been discarded, the
  stream stands behind the payload, whatever the handler did.
\<close>

lemma handler_then_discard:
  assumes "n \<le> length rest"
    and "run_handler h \<lparr>lrR = rest, lrN = int n\<rparr> = (p1, a, ferr)"
    and "Discard_ReadFrom p1 = (p2, err)"
  shows "lrR p2 = drop n rest \<and> err = None"
proof -
  let ?p = "\<lparr>lrR = rest, lrN = int n\<rparr>"
  have b: "0 \<le> lrN ?p" "nat (lrN ?p) \<le> length (lrR ?p)"
    using assms(1) by simp_all
  from run_handler_advances [OF b assms(2)]
  obtain j where j: "j \<le> n" "p1 = \<lparr>lrR = drop j rest, lrN = int n - int j\<rparr>"
    by auto
  with assms(1) have b1: "0 \<le> lrN p1" "nat (lrN p1) \<le> length (lrR p1)"
    by auto
  from j have "nat (lrN p1) = n - j"
    by simp
  with Discard_ReadFrom_drains [OF b1 assms(3)] j show ?thesis
    by simp
qed

lemma run_handler_within:
  assumes "n \<le> length rest"
    and "run_handler h \<lparr>lrR = rest, lrN = int n\<rparr> = (p1, a, ferr)"
  shows "\<exists>j\<le>n. lrR p1 = drop j rest"
proof -
  let ?p = "\<lparr>lrR = rest, lrN = int n\<rparr>"
  have b: "0 \<le> lrN ?p" "nat (lrN ?p) \<le> length (lrR ?p)"
    using assms(1) by simp_all
  from run_handler_advances [OF b assms(2)]
  obtain j where "j \<le> n \<and> lrR p1 = drop j rest"
    by auto
  then show ?thesis by (rule exI)
qed

lemma ReadMessage_encoded:
  assumes "unat L \<le> length rest"
    and "run_handler (f t) \<lparr>lrR = rest, lrN = int (unat L)\<rparr> = (p1, a, ferr)"
  shows "ReadMessage (encode_header \<lparr>hMagic = Magic, hLength = L, hType = t\<rparr> @ rest) f
           = (drop (unat L) rest, Some a, ferr)"
proof -
  obtain p2 err where d: "Discard_ReadFrom p1 = (p2, err)"
    by (cases "Discard_ReadFrom p1") auto
  from handler_then_discard [OF assms d]
  have "lrR p2 = drop (unat L) rest" and "err = None"
    by simp_all
  with assms(2) d show ?thesis
    by (simp add: ReadMessage_def binary_Read_encoded length_Magic)
qed

lemma Buffer_WriteJSONMessage:
  "Marshal v = Inr b \<Longrightarrow>
   WriteJSONMessage Buffer_Write Marshal buf t v
     = (buf @ encode_header \<lparr>hMagic = Magic, hLength = of_nat (length b), hType = t\<rparr> @ b, None)"
  by (simp add: WriteJSONMessage_def binary_Write_def Buffer_Write_def)

lemma unat_length_32: "length b < 2 ^ 32 \<Longrightarrow> unat (of_nat (length b) :: 32 word) = length b"
  by (simp add: unat_of_nat)

text \<open>
  Claim C4, with the bound the header imposes. For every type code \<open>t\<close> and every value
  that \<open>Marshal\<close> serializes to fewer than \<open>2 ^ 32\<close> bytes \<open>b\<close>: \<open>WriteJSONMessage\<close> on an
  empty buffer writes the header and \<open>b\<close>, and \<open>ReadMessage\<close> on these bytes runs the
  handler with the type code \<open>t\<close> on a payload reader over exactly \<open>b\<close>, leaves nothing
  in the buffer, and returns the handler's error and no other; a handler that reads the
  whole payload gets \<open>t\<close> and \<open>b\<close> and the call returns without error.
\<close>

theorem WriteJSONMessage_ReadMessage_roundtrip:
  assumes "Marshal v = Inr b" and "length b < 2 ^ 32"
  shows "WriteJSONMessage Buffer_Write Marshal [] t v
           = (encode_header \<lparr>hMagic = Magic, hLength = of_nat (length b), hType = t\<rparr> @ b, None) \<and>
         ReadMessage (fst (WriteJSONMessage Buffer_Write Marshal [] t v)) f
           = ([], Some (fst (snd (run_handler (f t) \<lparr>lrR = b, lrN = int (length b)\<rparr>))),
                  snd (snd (run_handler (f t) \<lparr>lrR = b, lrN = int (length b)\<rparr>))) \<and>
         (b \<noteq> [] \<longrightarrow>
            ReadMessage (fst (WriteJSONMessage Buffer_Write Marshal [] t v)) (echo (length b))
              = ([], Some (t, b), None))"
proof -
  let ?L = "of_nat (length b) :: 32 word"
  have L: "unat ?L = length b"
    using assms(2) by (rule unat_length_32)
  have w: "WriteJSONMessage Buffer_Write Marshal [] t v
             = (encode_header \<lparr>hMagic = Magic, hLength = ?L, hType = t\<rparr> @ b, None)"
    using Buffer_WriteJSONMessage [of Marshal v b "[]" t] assms(1) by simp
  have r: "ReadMessage (encode_header \<lparr>hMagic = Magic, hLength = ?L, hType = t\<rparr> @ b) g
             = ([], Some (fst (snd (run_handler (g t) \<lparr>lrR = b, lrN = int (length b)\<rparr>))),
                    snd (snd (run_handler (g t) \<lparr>lrR = b, lrN = int (length b)\<rparr>)))"
    for g :: "MessageType \<Rightarrow> 'c handler"
  proof -
    obtain p1 a ferr where h: "run_handler (g t) \<lparr>lrR = b, lrN = int (unat ?L)\<rparr> = (p1, a, ferr)"
      by (cases "run_handler (g t) \<lparr>lrR = b, lrN = int (unat ?L)\<rparr>") auto
    have "unat ?L \<le> length b" using L by simp
    from ReadMessage_encoded [where f = g and t = t and L = ?L and rest = b, OF this h] h L
    show ?thesis by simp
  qed
  have e: "b \<noteq> [] \<Longrightarrow>
      run_handler (echo (length b) t) \<lparr>lrR = b, lrN = int (length b)\<rparr>
        = (\<lparr>lrR = [], lrN = 0\<rparr>, (t, b), None)"
    by (simp add: echo_def LimitedReader_Read_def conn_Read_def)
  from w r [of f] r [of "echo (length b)"] e show ?thesis by simp
qed

theorem WriteJSONMessage_ReadMessage_roundtrip_witness:
  "Marshal_RawMessage input_doc = Inr input_doc \<and> length input_doc < 2 ^ 32 \<and>
   WriteJSONMessage Buffer_Write Marshal_RawMessage [] SUBSCRIBE input_doc
     = ([0x69, 0x33, 0x2D, 0x69, 0x70, 0x63, 9, 0, 0, 0, 2, 0, 0, 0,
         0x5B, 0x22, 0x69, 0x6E, 0x70, 0x75, 0x74, 0x22, 0x5D], None) \<and>
   ReadMessage [0x69, 0x33, 0x2D, 0x69, 0x70, 0x63, 9, 0, 0, 0, 2, 0, 0, 0,
         0x5B, 0x22, 0x69, 0x6E, 0x70, 0x75, 0x74, 0x22, 0x5D] (echo 9)
     = ([], Some (SUBSCRIBE, input_doc), None)"
proof -
  have m: "Marshal_RawMessage input_doc = Inr input_doc"
    by (simp add: Marshal_RawMessage_def)
  have n: "length input_doc < 2 ^ 32"
    by (simp add: input_doc_def)
  have h: "encode_header \<lparr>hMagic = Magic, hLength = 9, hType = SUBSCRIBE\<rparr>
             = [0x69, 0x33, 0x2D, 0x69, 0x70, 0x63, 9, 0, 0, 0, 2, 0, 0, 0]"
    by (simp add: encode_header_def Magic_def PutUint32_def SUBSCRIBE_def)
  have l: "length input_doc = 9" "input_doc \<noteq> []"
    by (simp_all add: input_doc_def)
  note rt = WriteJSONMessage_ReadMessage_roundtrip
    [of Marshal_RawMessage input_doc input_doc SUBSCRIBE "echo 9", OF m n]
  from rt [THEN conjunct1] have w: "WriteJSONMessage Buffer_Write Marshal_RawMessage [] SUBSCRIBE input_doc
      = (encode_header \<lparr>hMagic = Magic, hLength = 9, hType = SUBSCRIBE\<rparr> @ input_doc, None)"
    by (simp add: l)
  from rt [THEN conjunct2, THEN conjunct2] have r: "ReadMessage
      (encode_header \<lparr>hMagic = Magic, hLength = 9, hType = SUBSCRIBE\<rparr> @ input_doc) (echo 9)
      = ([], Some (SUBSCRIBE, input_doc), None)"
    by (simp add: w l)
  from m n w r show ?thesis
    by (simp add: h input_doc_def)
qed

text \<open>
  Claim C4 as stated, for every serializable value, fails at the first length the
  header cannot hold: for the JSON string of \<open>2 ^ 32\<close> bytes the header announces
  length 0, the handler finds an empty payload reader (its first read is \<^verbatim>\<open>io.EOF\<close>),
  and the whole document is left in the buffer.
\<close>

theorem WriteJSONMessage_ReadMessage_huge:
  "Marshal_RawMessage huge_doc = Inr huge_doc \<and>
   WriteJSONMessage Buffer_Write Marshal_RawMessage [] SUBSCRIBE huge_doc
     = (encode_header \<lparr>hMagic = Magic, hLength = 0, hType = SUBSCRIBE\<rparr> @ huge_doc, None) \<and>
   ReadMessage (fst (WriteJSONMessage Buffer_Write Marshal_RawMessage [] SUBSCRIBE huge_doc))
       (echo (length huge_doc))
     = (huge_doc, Some (SUBSCRIBE, []), Some EOF) \<and>
   huge_doc \<noteq> []"
proof -
  have m: "Marshal_RawMessage huge_doc = Inr huge_doc"
    by (simp add: Marshal_RawMessage_def)
  have l: "(of_nat (length huge_doc) :: 32 word) = 0"
    by (simp add: huge_doc_def)
  have w: "WriteJSONMessage Buffer_Write Marshal_RawMessage [] SUBSCRIBE huge_doc
     = (encode_header \<lparr>hMagic = Magic, hLength = 0, hType = SUBSCRIBE\<rparr> @ huge_doc, None)"
    using Buffer_WriteJSONMessage [of Marshal_RawMessage huge_doc huge_doc "[]" SUBSCRIBE] m l by simp
  have r: "ReadMessage (encode_header \<lparr>hMagic = Magic, hLength = 0, hType = SUBSCRIBE\<rparr> @ huge_doc)
       (echo (length huge_doc))
     = (huge_doc, Some (SUBSCRIBE, []), Some EOF)"
    by (simp add: ReadMessage_def binary_Read_encoded length_Magic echo_def
        LimitedReader_Read_def Discard_ReadFrom.simps [of "\<lparr>lrR = huge_doc, lrN = 0\<rparr>"])
  have "huge_doc \<noteq> []"
    by (simp add: huge_doc_def)
  with m w r show ?thesis by simp
qed

text \<open>
  Claim C5. For a stream that starts with a valid header announcing \<open>L\<close> payload bytes
  and holds at least \<open>L\<close> more bytes, and for every handler \<open>f\<close>: the handler runs on a
  reader from which it consumes some \<open>j \<le> L\<close> bytes of the payload and no more, and one
  call of \<open>ReadMessage\<close> leaves the stream exactly \<open>14 + L\<close> bytes further, at the next
  header.
\<close>

theorem ReadMessage_consumes_frame:
  assumes "unat L \<le> length rest"
  shows "length (encode_header \<lparr>hMagic = Magic, hLength = L, hType = t\<rparr>) = 14 \<and>
         fst (ReadMessage (encode_header \<lparr>hMagic = Magic, hLength = L, hType = t\<rparr> @ rest) f)
           = drop (14 + unat L)
               (encode_header \<lparr>hMagic = Magic, hLength = L, hType = t\<rparr> @ rest) \<and>
         (\<exists>j\<le>unat L. lrR (fst (run_handler (f t) \<lparr>lrR = rest, lrN = int (unat L)\<rparr>))
                        = drop j rest)"
proof -
  let ?p = "\<lparr>lrR = rest, lrN = int (unat L)\<rparr>"
  let ?h = "\<lparr>hMagic = Magic, hLength = L, hType = t\<rparr>"
  obtain p1 a ferr where h: "run_handler (f t) ?p = (p1, a, ferr)"
    by (cases "run_handler (f t) ?p") auto
  have len: "length (encode_header ?h) = 14"
    by (simp add: length_encode_header length_Magic)
  from run_handler_within [where n = "unat L" and h = "f t", OF assms h]
  have ex: "\<exists>j\<le>unat L. lrR (fst (run_handler (f t) ?p)) = drop j rest"
    using h by simp
  from ReadMessage_encoded [where f = f and t = t and L = L and rest = rest, OF assms h] len
  have "fst (ReadMessage (encode_header ?h @ rest) f) = drop (14 + unat L) (encode_header ?h @ rest)"
    by simp
  with len ex show ?thesis by simp
qed

theorem ReadMessage_consumes_frame_witness:
  "unat (3 :: 32 word) \<le> length [1, 2, 3, 4, 5 :: byte] \<and>
   ReadMessage (encode_header \<lparr>hMagic = Magic, hLength = 3, hType = GET_INPUTS\<rparr> @ [1, 2, 3, 4, 5])
       (echo 1)
     = ([4, 5], Some (GET_INPUTS, [1]), None) \<and>
   fst (ReadMessage
          (encode_header \<lparr>hMagic = Magic, hLength = 3, hType = GET_INPUTS\<rparr> @ [1, 2, 3, 4, 5])
          (echo 1))
     = drop (14 + 3)
         (encode_header \<lparr>hMagic = Magic, hLength = 3, hType = GET_INPUTS\<rparr> @ [1, 2, 3, 4, 5])"
proof -
  have a: "unat (3 :: 32 word) \<le> length [1, 2, 3, 4, 5 :: byte]"
    by simp
  have r: "ReadMessage
       (encode_header \<lparr>hMagic = Magic, hLength = 3, hType = GET_INPUTS\<rparr> @ [1, 2, 3, 4, 5])
       (echo 1)
     = ([4, 5], Some (GET_INPUTS, [1]), None)"
    by (simp add: ReadMessage_def binary_Read_encoded length_Magic echo_def
        LimitedReader_Read_def conn_Read_def
        Discard_ReadFrom.simps [of "\<lparr>lrR = x, lrN = y\<rparr>" for x y])
  from ReadMessage_consumes_frame [OF a, of GET_INPUTS "echo 1"] r show ?thesis
    by simp
qed

text \<open>
  The same facts without the assumption that the stream holds the whole payload: a read
  still moves stream and limit on by the same number of bytes, and after the handler
  and the discarding copy the stream stands \<open>L\<close> bytes behind the header, or at its end
  when it is shorter; the copy reports no error either way.
\<close>

lemma LimitedReader_Read_advances_any:
  assumes "0 \<le> lrN p" and "LimitedReader_Read p k = (bs, err, p')"
  shows "\<exists>j. int j \<le> lrN p \<and> p' = \<lparr>lrR = drop j (lrR p), lrN = lrN p - int j\<rparr>"
proof (cases "lrN p \<le> 0 \<or> k = 0 \<or> lrR p = []")
  case True
  with assms have "p' = p"
    by (auto simp: LimitedReader_Read_def conn_Read_def Let_def split: if_splits)
  with assms(1) have "int 0 \<le> lrN p \<and> p' = \<lparr>lrR = drop 0 (lrR p), lrN = lrN p - int 0\<rparr>"
    by simp
  then show ?thesis by (rule exI)
next
  case False
  define k' where "k' = (if int k > lrN p then nat (lrN p) else k)"
  define j where "j = min k' (length (lrR p))"
  from False have k': "int k' \<le> lrN p"
    by (auto simp: k'_def)
  then have j: "int j \<le> lrN p"
    by (simp add: j_def min_def)
  have d: "drop k' (lrR p) = drop j (lrR p)"
    by (simp add: j_def min_def)
  from False assms(2)
  have "p' = \<lparr>lrR = drop k' (lrR p), lrN = lrN p - int (length (take k' (lrR p)))\<rparr>"
    by (auto simp: LimitedReader_Read_def conn_Read_def Let_def k'_def split: if_splits)
  with d have "p' = \<lparr>lrR = drop j (lrR p), lrN = lrN p - int j\<rparr>"
    by (simp add: j_def min.commute)
  with j have "int j \<le> lrN p \<and> p' = \<lparr>lrR = drop j (lrR p), lrN = lrN p - int j\<rparr>"
    by simp
  then show ?thesis by (rule exI)
qed

lemma run_handler_advances_any:
  assumes "0 \<le> lrN p" and "run_handler h p = (p', a, err)"
  shows "\<exists>j. int j \<le> lrN p \<and> p' = \<lparr>lrR = drop j (lrR p), lrN = lrN p - int j\<rparr>"
  using assms
proof (induction h arbitrary: p)
  case (Return x1 x2)
  then have "int 0 \<le> lrN p \<and> p' = \<lparr>lrR = drop 0 (lrR p), lrN = lrN p - int 0\<rparr>"
    by simp
  then show ?case by (rule exI)
next
  case (ReadN k cont)
  obtain bs e p1 where r: "LimitedReader_Read p k = (bs, e, p1)"
    by (cases "LimitedReader_Read p k") auto
  with ReadN.prems have run1: "run_handler (cont bs e) p1 = (p', a, err)"
    by simp
  from LimitedReader_Read_advances_any [OF ReadN.prems(1) r]
  obtain i where i: "int i \<le> lrN p" "p1 = \<lparr>lrR = drop i (lrR p), lrN = lrN p - int i\<rparr>"
    by blast
  then have b1: "0 \<le> lrN p1"
    by simp
  from ReadN.IH [OF rangeI rangeI b1 run1]
  obtain j where j: "int j \<le> lrN p1" "p' = \<lparr>lrR = drop j (lrR p1), lrN = lrN p1 - int j\<rparr>"
    by blast
  with i have "int (i + j) \<le> lrN p \<and> p' = \<lparr>lrR = drop (i + j) (lrR p), lrN = lrN p - int (i + j)\<rparr>"
    by (simp add: add.commute)
  then show ?case by (rule exI)
qed

lemma Discard_ReadFrom_drains_any:
  assumes "0 \<le> lrN p" and "Discard_ReadFrom p = (p', err)"
  shows "lrR p' = drop (nat (lrN p)) (lrR p) \<and> err = None"
  using assms
proof (induction p rule: Discard_ReadFrom.induct)
  case (1 p)
  obtain bs e p1 where r: "LimitedReader_Read p 8192 = (bs, e, p1)"
    by (cases "LimitedReader_Read p 8192") auto
  from LimitedReader_Read_advances_any [OF "1.prems"(1) r]
  obtain i where i: "int i \<le> lrN p" "p1 = \<lparr>lrR = drop i (lrR p), lrN = lrN p - int i\<rparr>"
    by blast
  show ?case
  proof (cases e)
    case None
    with r "1.prems"(2) have d1: "Discard_ReadFrom p1 = (p', err)"
      by (simp add: Discard_ReadFrom.simps [of p])
    from i have b1: "0 \<le> lrN p1"
      by simp
    from r None have "(bs, e, p1) = LimitedReader_Read p 8192" "(e, p1) = (e, p1)" "e = None"
      by simp_all
    from "1.IH" [OF this b1 d1] i show ?thesis
      by (simp add: nat_diff_distrib add.commute)
  next
    case (Some x)
    with r "1.prems" show ?thesis
      by (auto simp: Discard_ReadFrom.simps [of p] LimitedReader_Read_def conn_Read_def
          Let_def split: if_splits)
  qed
qed

lemma handler_then_discard_any:
  assumes "run_handler h \<lparr>lrR = rest, lrN = int n\<rparr> = (p1, a, ferr)"
    and "Discard_ReadFrom p1 = (p2, err)"
  shows "lrR p2 = drop n rest \<and> err = None"
proof -
  let ?p = "\<lparr>lrR = rest, lrN = int n\<rparr>"
  have b: "0 \<le> lrN ?p"
    by simp
  from run_handler_advances_any [OF b assms(1)]
  obtain j where j: "j \<le> n" "p1 = \<lparr>lrR = drop j rest, lrN = int n - int j\<rparr>"
    by auto
  then have b1: "0 \<le> lrN p1" and n1: "nat (lrN p1) = n - j"
    by simp_all
  from Discard_ReadFrom_drains_any [OF b1 assms(2)] j n1 show ?thesis
    by simp
qed

lemma ReadMessage_encoded_any:
  assumes "run_handler (f t) \<lparr>lrR = rest, lrN = int (unat L)\<rparr> = (p1, a, ferr)"
  shows "ReadMessage (encode_header \<lparr>hMagic = Magic, hLength = L, hType = t\<rparr> @ rest) f
           = (drop (unat L) rest, Some a, ferr)"
proof -
  obtain p2 err where d: "Discard_ReadFrom p1 = (p2, err)"
    by (cases "Discard_ReadFrom p1") auto
  from handler_then_discard_any [OF assms d]
  have "lrR p2 = drop (unat L) rest" and "err = None"
    by simp_all
  with assms d show ?thesis
    by (simp add: ReadMessage_def binary_Read_encoded length_Magic)
qed

text \<open>
  Claim C6, amended. When the stream holds at least 14 bytes and the first six are not
  the magic string, \<open>ReadMessage\<close> returns the error \<^verbatim>\<open>invalid magic string\<close>, the handler
  is not called, and the stream stands right behind the 14 header bytes. When the stream
  ends before 14 bytes, the error is \<^verbatim>\<open>io.EOF\<close> (nothing read) or
  \<^verbatim>\<open>io.ErrUnexpectedEOF\<close>, again without a call of the handler. When the stream ends
  inside the payload that a valid header announces, the handler is called, the stream
  is read to its end, and the call returns the handler's error and nothing else; the
  end of the stream is reported by the next call, as \<^verbatim>\<open>io.EOF\<close>.
\<close>

theorem ReadMessage_bad_header:
  "(14 \<le> length r \<and> take 6 r \<noteq> Magic \<longrightarrow>
      ReadMessage r f = (drop 14 r, None, Some ErrInvalidMagic)) \<and>
   (length r < 14 \<longrightarrow>
      ReadMessage r f = ([], None, Some (if r = [] then EOF else ErrUnexpectedEOF))) \<and>
   (length rest < unat L \<longrightarrow>
      ReadMessage (encode_header \<lparr>hMagic = Magic, hLength = L, hType = t\<rparr> @ rest) g
        = ([], Some (fst (snd (run_handler (g t) \<lparr>lrR = rest, lrN = int (unat L)\<rparr>))),
               snd (snd (run_handler (g t) \<lparr>lrR = rest, lrN = int (unat L)\<rparr>))))"
proof (intro conjI impI)
  assume "14 \<le> length r \<and> take 6 r \<noteq> Magic"
  then show "ReadMessage r f = (drop 14 r, None, Some ErrInvalidMagic)"
    by (auto simp: ReadMessage_def binary_Read_def ReadFull_def decode_header_def)
next
  assume "length r < 14"
  then show "ReadMessage r f = ([], None, Some (if r = [] then EOF else ErrUnexpectedEOF))"
    by (auto simp: ReadMessage_def binary_Read_def ReadFull_def)
next
  assume short: "length rest < unat L"
  obtain p1 a ferr where h: "run_handler (g t) \<lparr>lrR = rest, lrN = int (unat L)\<rparr> = (p1, a, ferr)"
    by (cases "run_handler (g t) \<lparr>lrR = rest, lrN = int (unat L)\<rparr>") auto
  from ReadMessage_encoded_any [where f = g and t = t and L = L and rest = rest, OF h] short h
  show "ReadMessage (encode_header \<lparr>hMagic = Magic, hLength = L, hType = t\<rparr> @ rest) g
        = ([], Some (fst (snd (run_handler (g t) \<lparr>lrR = rest, lrN = int (unat L)\<rparr>))),
               snd (snd (run_handler (g t) \<lparr>lrR = rest, lrN = int (unat L)\<rparr>)))"
    by simp
qed

theorem ReadMessage_bad_header_witness:
  "14 \<le> length [1, 2, 3, 4, 5, 6, 7, 8, 9, 10, 11, 12, 13, 14, 15 :: byte] \<and>
   take 6 [1, 2, 3, 4, 5, 6, 7, 8, 9, 10, 11, 12, 13, 14, 15 :: byte] \<noteq> Magic \<and>
   ReadMessage [1, 2, 3, 4, 5, 6, 7, 8, 9, 10, 11, 12, 13, 14, 15] (echo 1)
     = ([15], None, Some ErrInvalidMagic) \<and>
   length [0x69, 0x33, 0x2D :: byte] < 14 \<and>
   ReadMessage [0x69, 0x33, 0x2D] (echo 1) = ([], None, Some ErrUnexpectedEOF) \<and>
   ReadMessage [] (echo 1) = ([], None, Some EOF) \<and>
   length [7, 8 :: byte] < unat (5 :: 32 word) \<and>
   ReadMessage (encode_header \<lparr>hMagic = Magic, hLength = 5, hType = GET_INPUTS\<rparr> @ [7, 8])
       (echo 5)
     = ([], Some (GET_INPUTS, [7, 8]), None)"
proof -
  have a: "14 \<le> length [1, 2, 3, 4, 5, 6, 7, 8, 9, 10, 11, 12, 13, 14, 15 :: byte] \<and>
     take 6 [1, 2, 3, 4, 5, 6, 7, 8, 9, 10, 11, 12, 13, 14, 15 :: byte] \<noteq> Magic"
    by (simp add: Magic_def)
  have b: "length [0x69, 0x33, 0x2D :: byte] < 14" "length ([] :: byte list) < 14"
    by simp_all
  have c: "length [7, 8 :: byte] < unat (5 :: 32 word)"
    by simp
  have h: "run_handler (echo 5 GET_INPUTS) \<lparr>lrR = [7, 8], lrN = 5\<rparr>
             = (\<lparr>lrR = [], lrN = 3\<rparr>, (GET_INPUTS, [7, 8]), None)"
    by (simp add: echo_def LimitedReader_Read_def conn_Read_def)
  note t1 = ReadMessage_bad_header
    [where r = "[1, 2, 3, 4, 5, 6, 7, 8, 9, 10, 11, 12, 13, 14, 15]" and f = "echo 1",
      THEN conjunct1, rule_format, OF a]
  note t2 = ReadMessage_bad_header
    [where r = "[0x69, 0x33, 0x2D]" and f = "echo 1",
      THEN conjunct2, THEN conjunct1, rule_format, OF b(1)]
  note t3 = ReadMessage_bad_header
    [where r = "[]" and f = "echo 1", THEN conjunct2, THEN conjunct1, rule_format, OF b(2)]
  note t4 = ReadMessage_bad_header
    [where rest = "[7, 8]" and L = 5 and t = GET_INPUTS and g = "echo 5",
      THEN conjunct2, THEN conjunct2, rule_format, OF c]
  from t1 have 1: "ReadMessage [1, 2, 3, 4, 5, 6, 7, 8, 9, 10, 11, 12, 13, 14, 15] (echo 1)
     = ([15], None, Some ErrInvalidMagic)"
    by simp
  from t2 have 2: "ReadMessage [0x69, 0x33, 0x2D] (echo 1) = ([], None, Some ErrUnexpectedEOF)"
    by simp
  from t3 have 3: "ReadMessage [] (echo 1) = ([], None, Some EOF)"
    by simp
  from t4 have 4: "ReadMessage
       (encode_header \<lparr>hMagic = Magic, hLength = 5, hType = GET_INPUTS\<rparr> @ [7, 8]) (echo 5)
     = ([], Some (GET_INPUTS, [7, 8]), None)"
    by (simp add: h)
  from a b c 1 2 3 4 show ?thesis by simp
qed

text \<open>
  Claim C6 as stated, an IO error for every short read or closed connection, fails when
  the connection closes inside the payload: the header announces five bytes, two
  arrive, the handler reads one and returns no error, the discarding copy takes the
  other and meets the end of the stream, which \<^verbatim>\<open>io.Copy\<close> does not report, and
  \<open>ReadMessage\<close> returns no error.
\<close>

theorem ReadMessage_truncated_payload:
  "length [7, 8 :: byte] < unat (5 :: 32 word) \<and>
   ReadMessage (encode_header \<lparr>hMagic = Magic, hLength = 5, hType = GET_INPUTS\<rparr> @ [7, 8])
       (echo 1)
     = ([], Some (GET_INPUTS, [7]), None)"
  by (simp add: ReadMessage_def binary_Read_encoded length_Magic echo_def
      LimitedReader_Read_def conn_Read_def
      Discard_ReadFrom.simps [of "\<lparr>lrR = x, lrN = y\<rparr>" for x y])


section \<open>Connecting\<close>

lemma Connect_empty_path:
  "Connect SWAYSOCK Dial [] =
     (if SWAYSOCK = [] then (None, Some ErrNoIPC)
      else case Dial SWAYSOCK of
             Inl msg \<Rightarrow> (None, Some (OpError msg))
           | Inr c \<Rightarrow> (Some c, None))"
  by (simp add: Connect_def)

lemma main_connect_cases:
  "main_connect SWAYSOCK Dial format =
     (if SWAYSOCK = [] then Started None (format @ [CHR 0x0A])
      else case Dial SWAYSOCK of
             Inl msg \<Rightarrow> Exit 1
           | Inr c \<Rightarrow> Started (Some c) ('' '' @ format @ [CHR 0x0A]))"
  by (simp add: main_connect_def Connect_empty_path split: sum.splits)

lemma loop_step_tick_only:
  assumes "loop_layout st = []"
    and "\<forall>w\<in>set (loop_stdout st). \<exists>t. w = Format t format"
    and "loop_step Format WriteString format st (TickEvent t) = Inr st'"
  shows "loop_layout st' = [] \<and> (\<forall>w\<in>set (loop_stdout st'). \<exists>t. w = Format t format)"
  using assms
  by (auto simp: loop_step_def candidate_def Let_def split: if_splits prod.splits)

lemma run_loop_tick_only:
  assumes "loop_layout st = []"
    and "\<forall>w\<in>set (loop_stdout st). \<exists>t. w = Format t format"
    and "\<forall>ev\<in>set evs. is_tick ev"
    and "run_loop Format WriteString format st evs = Inr st'"
  shows "loop_layout st' = [] \<and> (\<forall>w\<in>set (loop_stdout st'). \<exists>t. w = Format t format)"
  using assms
proof (induction evs arbitrary: st)
  case Nil
  then show ?case by simp
next
  case (Cons ev evs)
  from Cons.prems(3) obtain t where ev: "ev = TickEvent t"
    by (cases ev) auto
  from Cons.prems(4) obtain st1 where
    s1: "loop_step Format WriteString format st (TickEvent t) = Inr st1" and
    r1: "run_loop Format WriteString format st1 evs = Inr st'"
    by (auto simp: ev split: sum.splits)
  from loop_step_tick_only [OF Cons.prems(1,2) s1]
  have i1: "loop_layout st1 = []" "\<forall>w\<in>set (loop_stdout st1). \<exists>t. w = Format t format"
    by simp_all
  from Cons.prems(3) have "\<forall>ev\<in>set evs. is_tick ev"
    by simp
  from Cons.IH [OF i1 this r1] show ?case .
qed

text \<open>
  With a standard output that takes every write, a run of ticks leaves the loop running,
  and what it has written is the formatted times without adjacent repetitions.
\<close>

lemma loop_step_tick_written:
  assumes "\<forall>s. snd (WriteString s) = None \<and> length s \<le> fst (WriteString s)"
    and "loop_layout st = []"
  shows "loop_step Format WriteString format st (TickEvent t)
           = Inr \<lparr>loop_layout = [], loop_prevStatus = Format t format,
                   loop_stdout = loop_stdout st @
                     (if Format t format = loop_prevStatus st then [] else [Format t format])\<rparr>"
proof (cases "Format t format = loop_prevStatus st")
  case True
  with assms(2) show ?thesis
    by (cases st) (simp add: loop_step_def candidate_def Let_def)
next
  case False
  obtain n err where w: "WriteString (Format t format) = (n, err)"
    by (cases "WriteString (Format t format)") auto
  with assms(1) have "err = None" and "length (Format t format) \<le> n"
    by (metis snd_conv, metis fst_conv)
  with False w assms(2) show ?thesis
    by (simp add: loop_step_def candidate_def Let_def)
qed

lemma run_loop_ticks_written:
  assumes "\<forall>s. snd (WriteString s) = None \<and> length s \<le> fst (WriteString s)"
    and "loop_layout st = []"
  shows "run_loop Format WriteString format st (filter is_tick evs)
           = Inr \<lparr>loop_layout = [],
                   loop_prevStatus = last (loop_prevStatus st # map (\<lambda>t. Format t format) (ticks evs)),
                   loop_stdout = loop_stdout st @
                     tl (remdups_adj (loop_prevStatus st # map (\<lambda>t. Format t format) (ticks evs)))\<rparr>"
  using assms(2)
proof (induction evs arbitrary: st rule: ticks.induct)
  case 1
  then show ?case by (cases st) simp
next
  case (2 t evs)
  let ?c = "Format t format"
  let ?st1 = "\<lparr>loop_layout = [], loop_prevStatus = ?c,
                 loop_stdout = loop_stdout st @ (if ?c = loop_prevStatus st then [] else [?c])\<rparr>"
  have s: "loop_step Format WriteString format st (TickEvent t) = Inr ?st1"
    using assms(1) "2.prems" by (rule loop_step_tick_written)
  have "loop_layout ?st1 = []"
    by simp
  from "2.IH" [OF this] s show ?case
    by simp
next
  case (3 l now evs)
  then show ?case by simp
qed

text \<open>
  Claim C8, amended in the text of the error. \<open>Connect\<close> with an empty path uses the value
  of the environment variable; it fails with \<open>ErrNoIPC\<close>, whose text is
  \<^verbatim>\<open>Sway IPC socket path is unknown\<close>, exactly when that value is empty as well. Exactly
  in that case \<open>main\<close> goes on without a connection and with the format unprefixed: as
  long as standard output takes the writes, the loop is still running after any
  number of events, and what it has written is the formatted times of the ticks
  without adjacent repetitions, each without a layout in front. When the
  path is not empty and dialling fails, \<open>main\<close> exits with status 1; when dialling
  succeeds it goes on with the connection and a blank in front of the format.
\<close>

theorem Connect_no_ipc_is_time_only:
  "(SWAYSOCK = [] \<and> (\<forall>s. snd (WriteString s) = None \<and> length s \<le> fst (WriteString s)) \<longrightarrow>
      main_run SWAYSOCK Dial Format WriteString format evs
        = Inr \<lparr>loop_layout = [],
                loop_prevStatus =
                  last ([] # map (\<lambda>t. Format t (format @ [CHR 0x0A])) (ticks evs)),
                loop_stdout =
                  tl (remdups_adj ([] # map (\<lambda>t. Format t (format @ [CHR 0x0A])) (ticks evs)))\<rparr>) \<and>
   (Connect SWAYSOCK Dial [] = (None, Some ErrNoIPC) \<longleftrightarrow> SWAYSOCK = []) \<and>
   (SWAYSOCK \<noteq> [] \<and> Dial SWAYSOCK = Inr c \<longrightarrow> Connect SWAYSOCK Dial [] = (Some c, None)) \<and>
   Error ErrNoIPC = ''Sway IPC socket path is unknown'' \<and>
   (main_connect SWAYSOCK Dial format = Started None (format @ [CHR 0x0A])
      \<longleftrightarrow> SWAYSOCK = []) \<and>
   (SWAYSOCK \<noteq> [] \<and> Dial SWAYSOCK = Inl msg \<longrightarrow>
      Connect SWAYSOCK Dial [] = (None, Some (OpError msg)) \<and>
      main_connect SWAYSOCK Dial format = Exit 1 \<and>
      main_run SWAYSOCK Dial Format WriteString format evs = Inl 1) \<and>
   (SWAYSOCK \<noteq> [] \<and> Dial SWAYSOCK = Inr c \<longrightarrow>
      main_connect SWAYSOCK Dial format = Started (Some c) ('' '' @ format @ [CHR 0x0A])) \<and>
   (SWAYSOCK = [] \<and> main_run SWAYSOCK Dial Format WriteString format evs = Inr st \<longrightarrow>
      loop_layout st = [] \<and>
      (\<forall>w\<in>set (loop_stdout st). \<exists>t. w = Format t (format @ [CHR 0x0A])))"
proof (intro conjI impI)
  assume a: "SWAYSOCK = [] \<and>
    (\<forall>s. snd (WriteString s) = None \<and> length s \<le> fst (WriteString s))"
  then have e: "SWAYSOCK = []"
    by (rule conjunct1)
  from a have ok: "\<forall>s. snd (WriteString s) = None \<and> length s \<le> fst (WriteString s)"
    by (rule conjunct2)
  have l0: "loop_layout loop0 = []"
    by (simp add: loop0_def)
  from run_loop_ticks_written [OF ok l0, of Format "format @ [CHR 0x0A]" evs]
  show "main_run SWAYSOCK Dial Format WriteString format evs
        = Inr \<lparr>loop_layout = [],
                loop_prevStatus =
                  last ([] # map (\<lambda>t. Format t (format @ [CHR 0x0A])) (ticks evs)),
                loop_stdout =
                  tl (remdups_adj ([] # map (\<lambda>t. Format t (format @ [CHR 0x0A])) (ticks evs)))\<rparr>"
    by (simp add: e main_run_def main_connect_cases loop0_def)
next
  show "(Connect SWAYSOCK Dial [] = (None, Some ErrNoIPC)) = (SWAYSOCK = [])"
    by (simp add: Connect_empty_path split: sum.splits)
  show "Error ErrNoIPC = ''Sway IPC socket path is unknown''"
    by simp
  show "(main_connect SWAYSOCK Dial format = Started None (format @ [CHR 0x0A]))
          = (SWAYSOCK = [])"
    by (simp add: main_connect_cases split: sum.splits)
next
  assume a: "SWAYSOCK \<noteq> [] \<and> Dial SWAYSOCK = Inl msg"
  then show "Connect SWAYSOCK Dial [] = (None, Some (OpError msg))"
    by (simp add: Connect_empty_path)
  from a show "main_connect SWAYSOCK Dial format = Exit 1"
    by (simp add: main_connect_cases)
  from a show "main_run SWAYSOCK Dial Format WriteString format evs = Inl 1"
    by (simp add: main_run_def main_connect_cases)
next
  assume "SWAYSOCK \<noteq> [] \<and> Dial SWAYSOCK = Inr c"
  then show "Connect SWAYSOCK Dial [] = (Some c, None)"
    by (simp add: Connect_empty_path)
next
  assume "SWAYSOCK \<noteq> [] \<and> Dial SWAYSOCK = Inr c"
  then show "main_connect SWAYSOCK Dial format = Started (Some c) ('' '' @ format @ [CHR 0x0A])"
    by (simp add: main_connect_cases)
next
  assume a: "SWAYSOCK = [] \<and> main_run SWAYSOCK Dial Format WriteString format evs = Inr st"
  then have e: "SWAYSOCK = []"
    by (rule conjunct1)
  from a have m: "main_run SWAYSOCK Dial Format WriteString format evs = Inr st"
    by (rule conjunct2)
  from m have r: "run_loop Format WriteString (format @ [CHR 0x0A]) loop0 (filter is_tick evs) = Inr st"
    by (simp add: e main_run_def main_connect_cases)
  have i: "loop_layout loop0 = []" "\<forall>w\<in>set (loop_stdout loop0). \<exists>t. w = Format t (format @ [CHR 0x0A])"
    by (simp_all add: loop0_def)
  have t: "\<forall>ev\<in>set (filter is_tick evs). is_tick ev"
    by simp
  from run_loop_tick_only [OF i t r]
  show "loop_layout st = []" and "\<forall>w\<in>set (loop_stdout st). \<exists>t. w = Format t (format @ [CHR 0x0A])"
    by simp_all
qed

theorem Connect_no_ipc_is_time_only_witness:
  "Connect [] Dial_refused [] = (None, Some ErrNoIPC) \<and>
   main_connect [] Dial_refused ''now'' = Started None now_line \<and>
   main_run [] Dial_refused Format_literal WriteString_ok ''now''
       [TickEvent 0, LayoutEvent ''us'' 1, TickEvent 2]
     = Inr after_first_tick \<and>
   loop_layout after_first_tick = [] \<and>
   loop_stdout after_first_tick = [Format_literal 0 now_line] \<and>
   ''/run/sway.sock'' \<noteq> [] \<and> Dial_refused ''/run/sway.sock'' = Inl ''connection refused'' \<and>
   Connect ''/run/sway.sock'' Dial_refused [] = (None, Some (OpError ''connection refused'')) \<and>
   main_run ''/run/sway.sock'' Dial_refused Format_literal WriteString_ok ''now''
       [TickEvent 0, LayoutEvent ''us'' 1, TickEvent 2]
     = Inl 1"
proof -
  have ok: "([] :: string) = [] \<and>
      (\<forall>s. snd (WriteString_ok s) = None \<and> length s \<le> fst (WriteString_ok s))"
    by (simp add: WriteString_ok_def)
  have d: "''/run/sway.sock'' \<noteq> [] \<and> Dial_refused ''/run/sway.sock'' = Inl ''connection refused''"
    by (simp add: Dial_refused_def)
  note a = Connect_no_ipc_is_time_only
    [where SWAYSOCK = "[]" and Dial = Dial_refused and format = "''now''"
      and msg = "''connection refused''" and Format = Format_literal
      and WriteString = WriteString_ok
      and evs = "[TickEvent 0, LayoutEvent ''us'' 1, TickEvent 2]" and st = after_first_tick]
  note b = Connect_no_ipc_is_time_only
    [where SWAYSOCK = "''/run/sway.sock''" and Dial = Dial_refused and format = "''now''"
      and msg = "''connection refused''" and Format = Format_literal
      and WriteString = WriteString_ok
      and evs = "[TickEvent 0, LayoutEvent ''us'' 1, TickEvent 2]" and st = after_first_tick]
  from a [THEN conjunct1, rule_format, OF ok]
  have r: "main_run [] Dial_refused Format_literal WriteString_ok ''now''
       [TickEvent 0, LayoutEvent ''us'' 1, TickEvent 2] = Inr after_first_tick"
    by (simp add: after_first_tick_def now_line_def Format_literal_def)
  from a [THEN conjunct2] r have 1: "Connect [] Dial_refused [] = (None, Some ErrNoIPC)"
    and 2: "main_connect [] Dial_refused ''now'' = Started None now_line"
    and 3: "loop_layout after_first_tick = []"
    by (simp_all add: now_line_def)
  from b [THEN conjunct2] d
  have 4: "Connect ''/run/sway.sock'' Dial_refused [] = (None, Some (OpError ''connection refused''))"
    and 5: "main_run ''/run/sway.sock'' Dial_refused Format_literal WriteString_ok ''now''
       [TickEvent 0, LayoutEvent ''us'' 1, TickEvent 2] = Inl 1"
    by simp_all
  have 6: "loop_stdout after_first_tick = [Format_literal 0 now_line]"
    by (simp add: after_first_tick_def Format_literal_def)
  from 1 2 3 4 5 6 r d show ?thesis by simp
qed

text \<open>
  Claim C8 as stated names the error by the text \<^verbatim>\<open>IPC socket path unknown\<close>; the error
  that \<open>Connect\<close> returns for an empty path has another text.
\<close>

theorem Connect_no_ipc_message:
  "Connect [] Dial_refused [] = (None, Some ErrNoIPC) \<and>
   Error ErrNoIPC \<noteq> ''IPC socket path unknown''"
  by (simp add: Connect_def)

section \<open>The status loop: suppression of repeated lines\<close>

lemma loop_step_prevStatus:
  "loop_step Format WriteString format st ev = Inr st' \<Longrightarrow>
   loop_prevStatus st' = candidate Format format st ev \<and>
   loop_stdout st' = loop_stdout st @
     (if candidate Format format st ev = loop_prevStatus st then []
      else [candidate Format format st ev])"
  by (auto simp: loop_step_def Let_def split: if_splits prod.splits)

lemma loop_step_same:
  "loop_prevStatus st = candidate Format format st ev \<Longrightarrow>
   loop_step Format WriteString format st ev = Inr st' \<Longrightarrow>
   loop_stdout st' = loop_stdout st"
  by (auto simp: loop_step_def Let_def split: if_splits)

text \<open>
  Claim C9, amended. When two consecutive iterations compute the same candidate, the
  second one writes nothing; the first one writes the candidate, in one call, when it
  differs from the string emitted before, and nothing when it equals it. So the pair
  makes exactly one write when the candidate is new and none when the string had
  already been emitted.
\<close>

theorem status_loop_suppresses_repeat:
  assumes "loop_step Format WriteString format st e1 = Inr st1"
    and "loop_step Format WriteString format st1 e2 = Inr st2"
    and "candidate Format format st1 e2 = candidate Format format st e1"
  shows "loop_stdout st2 = loop_stdout st1 \<and>
         loop_stdout st2 = loop_stdout st @
           (if candidate Format format st e1 = loop_prevStatus st then []
            else [candidate Format format st e1])"
proof -
  from loop_step_prevStatus [OF assms(1)]
  have p: "loop_prevStatus st1 = candidate Format format st e1"
    and o: "loop_stdout st1 = loop_stdout st @
      (if candidate Format format st e1 = loop_prevStatus st then []
       else [candidate Format format st e1])"
    by simp_all
  from p assms(3) have "loop_prevStatus st1 = candidate Format format st1 e2"
    by simp
  from loop_step_same [OF this assms(2)] have "loop_stdout st2 = loop_stdout st1" .
  with o show ?thesis by simp
qed

theorem status_loop_suppresses_repeat_witness:
  "loop_step Format_literal WriteString_ok now_line loop0 (TickEvent 0) = Inr after_first_tick \<and>
   loop_step Format_literal WriteString_ok now_line after_first_tick (TickEvent 1)
     = Inr after_first_tick \<and>
   candidate Format_literal now_line after_first_tick (TickEvent 1)
     = candidate Format_literal now_line loop0 (TickEvent 0) \<and>
   loop_stdout after_first_tick = loop_stdout loop0 @ [now_line]"
proof -
  have 1: "loop_step Format_literal WriteString_ok now_line loop0 (TickEvent 0)
             = Inr after_first_tick"
    by (simp add: loop_step_def candidate_def loop0_def after_first_tick_def now_line_def
        Format_literal_def WriteString_ok_def Let_def)
  have 2: "loop_step Format_literal WriteString_ok now_line after_first_tick (TickEvent 1)
             = Inr after_first_tick"
    by (simp add: loop_step_def candidate_def after_first_tick_def now_line_def
        Format_literal_def WriteString_ok_def Let_def)
  have 3: "candidate Format_literal now_line after_first_tick (TickEvent 1)
             = candidate Format_literal now_line loop0 (TickEvent 0)"
    by (simp add: candidate_def loop0_def after_first_tick_def Format_literal_def)
  have 4: "candidate Format_literal now_line loop0 (TickEvent 0) = now_line"
    "loop_prevStatus loop0 = []" "now_line \<noteq> []"
    by (simp_all add: candidate_def loop0_def Format_literal_def now_line_def)
  from status_loop_suppresses_repeat [OF 1 2 3] 4
  have "loop_stdout after_first_tick = loop_stdout loop0 @ [now_line]"
    by simp
  with 1 2 3 show ?thesis by simp
qed

text \<open>
  Claim C9 as stated, exactly one write for every pair of consecutive iterations with
  identical candidates, fails for the second and third of three equal candidates: with a
  format that shows no changing field, the second and the third tick both compute the
  line the first tick has written, and neither writes.
\<close>

theorem status_loop_three_equal_ticks:
  "loop_step Format_literal WriteString_ok now_line loop0 (TickEvent 0) = Inr after_first_tick \<and>
   loop_stdout after_first_tick = [now_line] \<and>
   loop_step Format_literal WriteString_ok now_line after_first_tick (TickEvent 1)
     = Inr after_first_tick \<and>
   loop_step Format_literal WriteString_ok now_line after_first_tick (TickEvent 2)
     = Inr after_first_tick \<and>
   candidate Format_literal now_line after_first_tick (TickEvent 1)
     = candidate Format_literal now_line after_first_tick (TickEvent 2)"
  by (simp add: loop_step_def candidate_def loop0_def after_first_tick_def now_line_def
      Format_literal_def WriteString_ok_def Let_def)

end
